theory Spec2Isabelle
  imports Main
begin

section \<open>Python values and strings\<close>

text \<open>
  The values that travel through the pipeline are strings, integers (the configured year)
  and \<open>None\<close> (an attribute of a mapped object that was never set, a NULL column).
\<close>

datatype pyval = PNone | PStr string | PInt int

text \<open>Python truthiness, as used by \<open>if existing_papers[0].summary\<close>.\<close>

fun truthy :: "pyval \<Rightarrow> bool" where
  "truthy PNone = False"
| "truthy (PStr s) = (s \<noteq> [])"
| "truthy (PInt i) = (i \<noteq> 0)"

text \<open>Exceptions are values; every function that can raise returns \<open>error + 'a\<close>.\<close>

datatype error =
    TypeError string
  | ValueError string
  | IntegrityError string
  | InvalidRequestError string
  | WebDriverException string
  | RequestException string
  | OSError string
  | ExtractionError string
  | SummarizationError string

text \<open>\<open>str(n)\<close> for an integer, which is what an f-string does with \<open>{year}\<close>.\<close>

definition digit_char :: "nat \<Rightarrow> char" where
  "digit_char d = ''0123456789'' ! d"

fun str_nat :: "nat \<Rightarrow> string" where
  "str_nat n = (if n < 10 then [digit_char n] else str_nat (n div 10) @ [digit_char (n mod 10)])"

declare str_nat.simps [simp del]

definition str_int :: "int \<Rightarrow> string" where
  "str_int i = (if i < 0 then CHR ''-'' # str_nat (nat (- i)) else str_nat (nat i))"

text \<open>\<open>s.startswith(p)\<close> and \<open>sub in s\<close>.\<close>

definition startswith :: "string \<Rightarrow> string \<Rightarrow> bool" where
  "startswith s p = (take (length p) s = p)"

fun contains :: "string \<Rightarrow> string \<Rightarrow> bool" where
  "contains sub [] = (sub = [])"
| "contains sub (c # cs) = (startswith (c # cs) sub \<or> contains sub cs)"

text \<open>
  \<open>s.replace(old, new)\<close>: the occurrences of \<open>old\<close> are found from the left and do not
  overlap; an empty \<open>old\<close> matches before every character and at the end.
\<close>

function replace :: "string \<Rightarrow> string \<Rightarrow> string \<Rightarrow> string" where
  "replace old new [] = (if old = [] then new else [])"
| "replace old new (c # cs) =
     (if old = [] then new @ c # replace old new cs
      else if startswith (c # cs) old then new @ replace old new (drop (length old) (c # cs))
      else c # replace old new cs)"
  by pat_completeness auto
termination
  by (relation "measure (\<lambda>(old, new, s). length s)") auto

text \<open>\<open>s[:n]\<close>: a negative bound counts from the end.\<close>

definition slice_to :: "string \<Rightarrow> int \<Rightarrow> string" where
  "slice_to s n = (if 0 \<le> n then take (nat n) s else take (length s - nat (- n)) s)"

text \<open>\<open>s.strip()\<close>: the whitespace characters of \<open>str.isspace\<close> below code point 256.\<close>

definition isspace :: "char \<Rightarrow> bool" where
  "isspace c = ((of_char c :: nat) \<in> set [9, 10, 11, 12, 13, 28, 29, 30, 31, 32, 133, 160])"

definition strip :: "string \<Rightarrow> string" where
  "strip s = rev (dropWhile isspace (rev (dropWhile isspace s)))"

text \<open>\<open>s.lower()\<close> on the ASCII letters.\<close>

definition lower_char :: "char \<Rightarrow> char" where
  "lower_char c =
     (case map_of (zip ''ABCDEFGHIJKLMNOPQRSTUVWXYZ'' ''abcdefghijklmnopqrstuvwxyz'') c of
        Some l \<Rightarrow> l
      | None \<Rightarrow> c)"

definition lower :: "string \<Rightarrow> string" where
  "lower s = map lower_char s"

text \<open>
  Modelled from the spec: \<open>clean_text\<close> is imported from \<open>pdf_parser\<close>, a module of the
  repository that is not among the source files. The specification of the identifier
  derivation says: "normalize the title by stripping characters outside the printable
  ASCII range, collapse/replace whitespace with a single separator", and it wants titles
  that differ only by non-ASCII characters or whitespace runs to get the same id. The
  call site replaces every space by an underscore, one for one, so the collapsing is the
  part of \<open>clean_text\<close>: it drops every character that is neither printable ASCII nor
  whitespace and turns each run of whitespace into one space. The orchestrator below
  takes \<open>clean_text\<close> as a parameter; this is the function the specification describes.
\<close>

definition printable_ascii :: "char \<Rightarrow> bool" where
  "printable_ascii c = (32 \<le> (of_char c :: nat) \<and> (of_char c :: nat) \<le> 126)"

function collapse_whitespace :: "string \<Rightarrow> string" where
  "collapse_whitespace [] = []"
| "collapse_whitespace (c # cs) =
     (if isspace c then CHR '' '' # collapse_whitespace (dropWhile isspace cs)
      else c # collapse_whitespace cs)"
  by pat_completeness auto
termination
  by (relation "measure length") (auto simp add: length_dropWhile_le less_Suc_eq_le)

definition clean_text_model :: "string \<Rightarrow> string" where
  "clean_text_model s = collapse_whitespace (filter (\<lambda>c. printable_ascii c \<or> isspace c) s)"


section \<open>The record store (sql.py)\<close>

text \<open>
  A mapped class is its table name, the names of its columns, the names of its other
  class attributes, and its primary key. A row of the table is the list of its columns'
  values in the order of the class; a column that was never set reads \<open>None\<close>.
\<close>

record model_class =
  tablename :: string
  columns :: "string list"
  other_attributes :: "string list"
  primary_key :: string

text \<open>\<open>hasattr(cls, k)\<close>.\<close>

definition hasattr :: "model_class \<Rightarrow> string \<Rightarrow> bool" where
  "hasattr cls k = (k \<in> set (columns cls) \<or> k \<in> set (other_attributes cls))"

type_synonym kwargs = "(string \<times> pyval) list"
type_synonym row = "(string \<times> pyval) list"

text \<open>
  The names a class made with \<open>declarative_base()\<close> has without declaring them: those of
  the base and those of \<open>object\<close>.
\<close>

definition inherited_attributes :: "string list" where
  "inherited_attributes =
     [''metadata'', ''registry'', ''__init__'', ''__mapper__'', ''__table__'',
      ''_sa_class_manager'', ''_sa_registry'', ''__class__'', ''__delattr__'', ''__dict__'',
      ''__dir__'', ''__doc__'', ''__eq__'', ''__format__'', ''__ge__'', ''__getattribute__'',
      ''__getstate__'', ''__gt__'', ''__hash__'', ''__init_subclass__'', ''__le__'', ''__lt__'',
      ''__module__'', ''__ne__'', ''__new__'', ''__reduce__'', ''__reduce_ex__'',
      ''__setattr__'', ''__sizeof__'', ''__str__'', ''__subclasshook__'', ''__weakref__'']"

text \<open>
  The class \<open>Paper\<close> of sql.py: eight columns, \<open>id\<close> the primary key; besides them the
  class body defines \<open>__tablename__\<close> and \<open>__repr__\<close>.
\<close>

definition Paper :: model_class where
  "Paper = \<lparr>tablename = ''Paper'',
            columns = [''id'', ''platform'', ''collection'', ''title'',
                       ''pdf_url'', ''pdf_path'', ''content'', ''summary''],
            other_attributes = ''__tablename__'' # ''__repr__'' # inherited_attributes,
            primary_key = ''id''\<rparr>"

definition getattr :: "row \<Rightarrow> string \<Rightarrow> pyval" where
  "getattr r k = (case map_of r k of Some v \<Rightarrow> v | None \<Rightarrow> PNone)"

text \<open>
  \<open>Paper(**kwargs)\<close> runs the constructor that \<open>declarative_base()\<close> gives every mapped
  class: it goes through the keywords in order, raises \<open>TypeError\<close> at the first one for
  which \<open>hasattr(cls, k)\<close> is false, and sets the others. A keyword that names an
  attribute other than a column is set on the object and is no part of the row.
\<close>

definition declarative_constructor :: "model_class \<Rightarrow> kwargs \<Rightarrow> error + row" where
  "declarative_constructor cls kw =
     (case filter (\<lambda>k. \<not> hasattr cls k) (map fst kw) of
        k # _ \<Rightarrow> Inl (TypeError k)
      | [] \<Rightarrow> Inr (map (\<lambda>a. (a, getattr kw a)) (columns cls)))"

text \<open>
  \<open>Database.add_entry\<close>, called as main.py calls it, with an object that was just
  constructed: \<open>session.add\<close> and \<open>commit\<close>, which is an INSERT. The commit raises
  \<open>IntegrityError\<close> when the primary key is NULL or already in the table, and then the
  table is what it was. There is no branch that writes to an existing row.
\<close>

definition add_entry :: "model_class \<Rightarrow> row list \<Rightarrow> row \<Rightarrow> (error + unit) \<times> row list" where
  "add_entry cls table paper =
     (let key = getattr paper (primary_key cls) in
      if key = PNone then (Inl (IntegrityError (tablename cls)), table)
      else if key \<in> set (map (\<lambda>r. getattr r (primary_key cls)) table)
      then (Inl (IntegrityError (tablename cls)), table)
      else (Inr (), table @ [paper]))"

text \<open>
  \<open>Database.get_papers\<close>: the rows that agree with every filter; \<open>filter_by\<close> raises on a
  keyword that is not a column of the class. Values are compared as they are written:
  the one filter in the sources is a string on a string column, and the coercion a
  database applies to a filter value of another type is not modelled.
\<close>

definition get_papers :: "model_class \<Rightarrow> row list \<Rightarrow> kwargs \<Rightarrow> error + row list" where
  "get_papers cls table filters =
     (case filter (\<lambda>k. k \<notin> set (columns cls)) (map fst filters) of
        k # _ \<Rightarrow> Inl (InvalidRequestError k)
      | [] \<Rightarrow> Inr (filter (\<lambda>r. list_all (\<lambda>f. getattr r (fst f) = snd f) filters) table))"

section \<open>The listing fetcher (pdf_scraper.py)\<close>

text \<open>What the program does to the outside, in order.\<close>

datatype event =
    Print string
  | Sleep nat
  | Query string
  | Download string string
  | Extract string
  | Summarize string
  | Insert row
  | Setup
  | Get string
  | Scroll
  | Click
  | Quit

text \<open>
  The browser is scripted. A listing item has a heading, unless looking for it raises, and
  the hrefs of its download links. A page says whether waiting for its content raises,
  what each reading of \<open>document.body.scrollHeight\<close> gives (reading 0 is the one before
  the scroll loop), its items, and its next-page control: the class of the control's
  parent and whether the click raises. A session says whether \<open>driver.get\<close> and
  \<open>driver.quit\<close> raise and which page is shown under each page number. The browser gives
  the outcome of each call of \<open>setup_firefox_driver\<close>, counted from 0.
\<close>

record listing_note =
  h4 :: "error + string"
  pdf_links :: "string list"

record next_button =
  parent_class :: "string option"
  click_error :: "error option"

record page =
  wait_error :: "error option"
  heights :: "nat \<Rightarrow> error + nat"
  items :: "listing_note list"
  next_control :: "error + next_button"

record session =
  get_error :: "error option"
  pages :: "nat \<Rightarrow> page"
  quit_error :: "string option"

type_synonym browser = "nat \<Rightarrow> error + session"

definition max_scroll_attempts :: nat where
  "max_scroll_attempts = 10"

text \<open>
  Lines 129 to 136. The loop is entered with the height read before it and the count 0;
  each round scrolls, sleeps 3 seconds and reads the height again.
\<close>

function scroll_loop :: "(nat \<Rightarrow> error + nat) \<Rightarrow> nat \<Rightarrow> nat \<Rightarrow> (error + unit) \<times> event list" where
  "scroll_loop hs last_height scroll_attempts =
     (if scroll_attempts < max_scroll_attempts then
        (case hs (Suc scroll_attempts) of
           Inl e \<Rightarrow> (Inl e, [Scroll, Sleep 3])
         | Inr new_height \<Rightarrow>
             if new_height = last_height then (Inr (), [Scroll, Sleep 3])
             else (case scroll_loop hs new_height (scroll_attempts + 1) of
                     (r, evs) \<Rightarrow> (r, Scroll # Sleep 3 # evs)))
      else (Inr (), []))"
  by pat_completeness auto
termination
  by (relation "measure (\<lambda>(hs, last_height, scroll_attempts). max_scroll_attempts - scroll_attempts)")
     auto

declare scroll_loop.simps [simp del]

text \<open>Lines 142 to 152: an item whose heading cannot be found is passed over.\<close>

fun extract_notes :: "listing_note list \<Rightarrow> (string \<times> string) list" where
  "extract_notes [] = []"
| "extract_notes (n # ns) =
     (case h4 n of
        Inl e \<Rightarrow> extract_notes ns
      | Inr t \<Rightarrow>
          (let title = strip t in
           case pdf_links n of
             [] \<Rightarrow> extract_notes ns
           | pdf_url # _ \<Rightarrow>
               if 0 < length (strip title) then (title, pdf_url) # extract_notes ns
               else extract_notes ns))"

text \<open>
  Lines 115 to 167, the loop over the pages. Nothing in the code bounds the number of
  pages, so the model takes fuel, one unit per page, and \<open>None\<close> is a loop that has not
  ended within it. An exception while looking for the next-page control, reading its
  class or clicking it ends the loop with the entries found so far.
\<close>

fun page_loop ::
  "nat \<Rightarrow> session \<Rightarrow> nat \<Rightarrow> (string \<times> string) list
     \<Rightarrow> ((error + (string \<times> string) list) \<times> event list) option" where
  "page_loop 0 s page_number papers = None"
| "page_loop (Suc fuel) s page_number papers =
     (let pg = pages s page_number in
      case wait_error pg of
        Some e \<Rightarrow> Some (Inl e, [])
      | None \<Rightarrow>
          (case heights pg 0 of
             Inl e \<Rightarrow> Some (Inl e, [])
           | Inr last_height \<Rightarrow>
               (case scroll_loop (heights pg) last_height 0 of
                  (Inl e, evs) \<Rightarrow> Some (Inl e, evs)
                | (Inr u, evs) \<Rightarrow>
                    (let papers' = papers @ extract_notes (items pg) in
                     case next_control pg of
                       Inl e \<Rightarrow> Some (Inr papers', evs)
                     | Inr nb \<Rightarrow>
                         (case parent_class nb of
                            None \<Rightarrow> Some (Inr papers', evs)
                          | Some c \<Rightarrow>
                              if \<not> contains ''disabled'' c then
                                (case click_error nb of
                                   Some e \<Rightarrow> Some (Inr papers', evs @ [Click])
                                 | None \<Rightarrow>
                                     (case page_loop fuel s (page_number + 1) papers' of
                                        None \<Rightarrow> None
                                      | Some (r, evs') \<Rightarrow>
                                          Some (r, evs @ [Click, Sleep 3] @ evs')))
                              else Some (Inr papers', evs))))))"

text \<open>The body of the \<open>try\<close>, lines 105 to 169, in attempt \<open>n\<close>.\<close>

definition try_body ::
  "nat \<Rightarrow> browser \<Rightarrow> string \<Rightarrow> nat \<Rightarrow> ((error + (string \<times> string) list) \<times> event list) option" where
  "try_body fuel B base_url n =
     (case B n of
        Inl e \<Rightarrow> Some (Inl e, [Setup])
      | Inr s \<Rightarrow>
          (case get_error s of
             Some e \<Rightarrow> Some (Inl e, [Setup, Get base_url])
           | None \<Rightarrow>
               (case page_loop fuel s 1 [] of
                  None \<Rightarrow> None
                | Some (r, evs) \<Rightarrow> Some (r, Setup # Get base_url # evs))))"

text \<open>
  The variable \<open>driver\<close> after the \<open>try\<close> of attempt \<open>n\<close>: it is assigned only when the
  set-up returns, and it is not reset between attempts.
\<close>

definition driver_after :: "browser \<Rightarrow> nat \<Rightarrow> session option \<Rightarrow> session option" where
  "driver_after B n driver = (case B n of Inl e \<Rightarrow> driver | Inr s \<Rightarrow> Some s)"

text \<open>
  The variable \<open>driver\<close> at the \<open>finally\<close> of attempt \<open>n\<close>, the function having started
  with \<open>driver = None\<close>: the session of the latest set-up that returned, if any.
\<close>

fun driver_at :: "browser \<Rightarrow> nat \<Rightarrow> session option" where
  "driver_at B 0 = driver_after B 0 None"
| "driver_at B (Suc n) = driver_after B (Suc n) (driver_at B n)"

text \<open>The \<open>finally\<close> block, lines 180 to 185: an exception of \<open>quit\<close> is printed.\<close>

definition finally_quit :: "session option \<Rightarrow> event list" where
  "finally_quit driver =
     (case driver of
        None \<Rightarrow> []
      | Some s \<Rightarrow>
          (case quit_error s of
             None \<Rightarrow> [Quit]
           | Some msg \<Rightarrow> [Quit, Print (''Error closing driver: '' @ msg)]))"

text \<open>
  Lines 103 to 185, the retry loop. A loop that is never entered falls off the end of
  the function, which returns \<open>None\<close>: the result \<open>Inr None\<close>.
\<close>

function retry_loop ::
  "nat \<Rightarrow> browser \<Rightarrow> string \<Rightarrow> nat \<Rightarrow> nat \<Rightarrow> session option
     \<Rightarrow> ((error + (string \<times> string) list option) \<times> event list) option" where
  "retry_loop fuel B base_url max_retries retry_count driver =
     (if retry_count < max_retries then
        (case try_body fuel B base_url retry_count of
           None \<Rightarrow> None
         | Some (Inr papers, evs) \<Rightarrow>
             Some (Inr (Some papers), evs @ finally_quit (driver_after B retry_count driver))
         | Some (Inl e, evs) \<Rightarrow>
             if retry_count + 1 < max_retries then
               (case retry_loop fuel B base_url max_retries (retry_count + 1)
                       (driver_after B retry_count driver) of
                  None \<Rightarrow> None
                | Some (r, evs') \<Rightarrow>
                    Some (r, evs @ [Sleep 5] @ finally_quit (driver_after B retry_count driver)
                             @ evs'))
             else Some (Inl e, evs @ finally_quit (driver_after B retry_count driver)))
      else Some (Inr None, []))"
  by pat_completeness auto
termination
  by (relation "measure (\<lambda>(fuel, B, base_url, max_retries, retry_count, driver).
                            max_retries - retry_count)") auto

declare retry_loop.simps [simp del]

definition default_max_retries :: nat where
  "default_max_retries = 3"

definition base_url :: "string \<Rightarrow> int \<Rightarrow> string \<Rightarrow> string option \<Rightarrow> string" where
  "base_url conf yr trk submission =
     ''https://openreview.net/group?id='' @ conf @ ''.cc/'' @ str_int yr @ ''/'' @ trk
       @ (case submission of None \<Rightarrow> [] | Some t \<Rightarrow> ''#'' @ t)"

definition scrape_openreview ::
  "nat \<Rightarrow> browser \<Rightarrow> string \<Rightarrow> int \<Rightarrow> string \<Rightarrow> string option \<Rightarrow> nat
     \<Rightarrow> ((error + (string \<times> string) list option) \<times> event list) option" where
  "scrape_openreview fuel B conf yr trk submission max_retries =
     retry_loop fuel B (base_url conf yr trk submission) max_retries 0 None"

section \<open>The artifact downloader (pdf_scraper.py)\<close>

text \<open>\<open>os.path.join(a, b)\<close> on a POSIX system.\<close>

definition path_join :: "string \<Rightarrow> string \<Rightarrow> string" where
  "path_join a b =
     (if startswith b ''/'' then b
      else if a = [] \<or> last a = CHR ''/'' then a @ b
      else a @ ''/'' @ b)"

record response =
  status_code :: nat
  content :: string

text \<open>
  The world outside the program: what a GET of a URL answers (or that it raises), which
  paths can be opened for writing, and the three functions that main.py imports from
  modules outside the sources: \<open>clean_text\<close>, the text extractor and the summarizer. They
  are parameters; the extractor and the summarizer may raise.
\<close>

record env =
  clean_text :: "string \<Rightarrow> string"
  http_get :: "string \<Rightarrow> error + response"
  can_write :: "string \<Rightarrow> bool"
  parse_and_clean_pdf :: "(string \<rightharpoonup> string) \<Rightarrow> string \<Rightarrow> error + string"
  summarize_text ::
    "string \<Rightarrow> string \<Rightarrow> string \<Rightarrow> string \<Rightarrow> string \<Rightarrow> kwargs \<Rightarrow> error + string"

text \<open>
  \<open>download_pdf\<close>: one GET; on status 200 the body is written to the joined path, which is
  returned; on any other status the result is \<open>None\<close> and no file is touched.
\<close>

definition download_pdf ::
  "env \<Rightarrow> string \<Rightarrow> string \<Rightarrow> string \<Rightarrow> (string \<rightharpoonup> string)
     \<Rightarrow> (error + string option) \<times> (string \<rightharpoonup> string)" where
  "download_pdf E filename url output_dir fs =
     (case http_get E url of
        Inl e \<Rightarrow> (Inl e, fs)
      | Inr response \<Rightarrow>
          if status_code response = 200 then
            (let filepath = path_join output_dir filename in
             if can_write E filepath then (Inr (Some filepath), fs(filepath \<mapsto> content response))
             else (Inl (OSError filepath), fs))
          else (Inr None, fs))"

section \<open>The orchestrator (main.py)\<close>

record config =
  platform :: string
  conference :: string
  year :: int
  track :: string
  submission_type :: string
  output_dir :: string
  delay :: nat
  content_cap :: int
  provider :: string
  model_name :: string
  prefix :: string
  suffix :: string
  param :: kwargs

record world =
  table :: "row list"
  files :: "string \<rightharpoonup> string"
  trace :: "event list"

definition emit :: "event \<Rightarrow> world \<Rightarrow> world" where
  "emit e w = w\<lparr>trace := trace w @ [e]\<rparr>"

text \<open>Lines 50 to 52: the identifier of a listing entry.\<close>

definition processed_id :: "env \<Rightarrow> config \<Rightarrow> string \<Rightarrow> string" where
  "processed_id E cfg title =
     replace '' '' ''_'' (clean_text E title) @ ''_'' @ conference cfg @ ''_'' @ str_int (year cfg)
       @ ''_'' @ track cfg @ ''_'' @ submission_type cfg @ ''_'' @ platform cfg"

text \<open>The keywords of the call \<open>Paper(...)\<close> at lines 78 to 90, in the order written.\<close>

definition paper_kwargs ::
  "config \<Rightarrow> string \<Rightarrow> string \<Rightarrow> string \<Rightarrow> string \<Rightarrow> string \<Rightarrow> string \<Rightarrow> kwargs" where
  "paper_kwargs cfg pid processed_title url pdf_path text summary =
     [(''id'', PStr pid), (''title'', PStr processed_title),
      (''conference'', PStr (conference cfg)), (''year'', PInt (year cfg)),
      (''track'', PStr (track cfg)), (''submission_type'', PStr (submission_type cfg)),
      (''platform'', PStr (platform cfg)), (''pdf_url'', PStr url),
      (''pdf_path'', PStr pdf_path), (''content'', PStr text), (''summary'', PStr summary)]"

datatype outcome = Skipped | DownloadFailed | Persisted

text \<open>
  The body of the loop over the listing, lines 49 to 96, for one entry. The two
  \<open>continue\<close> statements end the body at once; an exception of a callee ends it with
  \<open>Inl\<close>, since the body has no handler. The mapped class is a parameter; the program
  runs the body with \<open>Paper\<close>.
\<close>

definition process_paper ::
  "model_class \<Rightarrow> env \<Rightarrow> config \<Rightarrow> string \<times> string \<Rightarrow> world \<Rightarrow> (error + outcome) \<times> world" where
  "process_paper cls E cfg entry w =
     (let title = fst entry; url = snd entry;
          processed_title = clean_text E title;
          pid = processed_id E cfg title;
          w1 = emit (Query pid) w
      in case get_papers cls (table w1) [(''id'', PStr pid)] of
        Inl e \<Rightarrow> (Inl e, w1)
      | Inr existing_papers \<Rightarrow>
          if (case existing_papers of [] \<Rightarrow> False | r # _ \<Rightarrow> truthy (getattr r ''summary''))
          then (Inr Skipped, emit (Print (''Skipping '' @ title @ '', already processed.'')) w1)
          else
            (let w2 = emit (Download (pid @ ''.pdf'') url) w1 in
             case download_pdf E (pid @ ''.pdf'') url (output_dir cfg) (files w2) of
               (Inl e, fs) \<Rightarrow> (Inl e, w2\<lparr>files := fs\<rparr>)
             | (Inr None, fs) \<Rightarrow>
                 (Inr DownloadFailed,
                  emit (Print (''Failed to download '' @ title @ ''.'')) (w2\<lparr>files := fs\<rparr>))
             | (Inr (Some pdf_path), fs) \<Rightarrow>
                 if pdf_path = [] then
                   (Inr DownloadFailed,
                    emit (Print (''Failed to download '' @ title @ ''.'')) (w2\<lparr>files := fs\<rparr>))
                 else
                   (let w3 = emit (Extract pdf_path) (w2\<lparr>files := fs\<rparr>) in
                    case parse_and_clean_pdf E (files w3) pdf_path of
                      Inl e \<Rightarrow> (Inl e, w3)
                    | Inr text0 \<Rightarrow>
                        (let text1 = (if content_cap cfg \<noteq> 0 then slice_to text0 (content_cap cfg)
                                      else text0);
                             w4 = emit (Summarize text1) w3
                         in case summarize_text E (prefix cfg) (suffix cfg) text1
                                   (provider cfg) (model_name cfg) (param cfg) of
                           Inl e \<Rightarrow> (Inl e, w4)
                         | Inr summary \<Rightarrow>
                             (case declarative_constructor cls
                                     (paper_kwargs cfg pid processed_title url pdf_path text1 summary) of
                                Inl e \<Rightarrow> (Inl e, w4)
                              | Inr paper_entry \<Rightarrow>
                                  (let w5 = emit (Insert paper_entry) w4 in
                                   case add_entry cls (table w5) paper_entry of
                                     (Inl e, t) \<Rightarrow> (Inl e, w5\<lparr>table := t\<rparr>)
                                   | (Inr u, t) \<Rightarrow>
                                       (Inr Persisted,
                                        emit (Sleep (delay cfg)) (w5\<lparr>table := t\<rparr>))))))))"

text \<open>The \<open>for\<close> loop of lines 48 to 96: an exception leaves the loop.\<close>

fun process_papers ::
  "model_class \<Rightarrow> env \<Rightarrow> config \<Rightarrow> (string \<times> string) list \<Rightarrow> world \<Rightarrow> (error + unit) \<times> world" where
  "process_papers cls E cfg [] w = (Inr (), w)"
| "process_papers cls E cfg (entry # rest) w =
     (case process_paper cls E cfg entry w of
        (Inl e, w') \<Rightarrow> (Inl e, w')
      | (Inr oc, w') \<Rightarrow> process_papers cls E cfg rest w')"

text \<open>
  \<open>main\<close> from the platform test on, lines 38 to 98, started on a loaded configuration and
  a created table. A failed scrape propagates; iterating over \<open>None\<close> raises \<open>TypeError\<close>.
  The creation of the output directory, lines 44 and 45, is part of the world:
  \<open>can_write\<close> says which paths can be opened.
\<close>

definition main ::
  "nat \<Rightarrow> browser \<Rightarrow> env \<Rightarrow> config \<Rightarrow> world \<Rightarrow> ((error + unit) \<times> world) option" where
  "main fuel B E cfg w =
     (if lower (platform cfg) = ''openreview'' then
        (case scrape_openreview fuel B (conference cfg) (year cfg) (track cfg)
                (Some (submission_type cfg)) default_max_retries of
           None \<Rightarrow> None
         | Some (Inl e, evs) \<Rightarrow> Some (Inl e, w\<lparr>trace := trace w @ evs\<rparr>)
         | Some (Inr None, evs) \<Rightarrow>
             Some (Inl (TypeError ''NoneType''), w\<lparr>trace := trace w @ evs\<rparr>)
         | Some (Inr (Some papers), evs) \<Rightarrow>
             (case process_papers Paper E cfg papers (w\<lparr>trace := trace w @ evs\<rparr>) of
                (Inl e, w') \<Rightarrow> Some (Inl e, w')
              | (Inr u, w') \<Rightarrow> Some (Inr (), emit (Print ''All papers processed.'') w')))
      else Some (Inl (ValueError (''Unsupported platform: '' @ platform cfg)), w))"

section \<open>Concrete inputs\<close>

text \<open>
  A configuration, worlds and collaborators on which the theorems below are exercised:
  every download answers 200 in \<open>env_ok\<close> and 404 in \<open>env_404\<close>; the extractor raises in
  \<open>env_extract_fails\<close> and the summarizer in \<open>env_summarize_fails\<close>.
\<close>

definition cfg0 :: config where
  "cfg0 = \<lparr>platform = ''openreview'', conference = ''ICLR'', year = 2024,
           track = ''Conference'', submission_type = ''oral'', output_dir = ''out'',
           delay = 2, content_cap = 0, provider = ''p'', model_name = ''m'',
           prefix = ''Summarize: '', suffix = [], param = []\<rparr>"

definition env_ok :: env where
  "env_ok = \<lparr>clean_text = clean_text_model,
             http_get = (\<lambda>u. Inr \<lparr>status_code = 200, content = ''%PDF''\<rparr>),
             can_write = (\<lambda>p. True),
             parse_and_clean_pdf = (\<lambda>fs p. Inr ''text''),
             summarize_text = (\<lambda>a b c d e f. Inr ''digest'')\<rparr>"

definition env_404 :: env where
  "env_404 = env_ok\<lparr>http_get := (\<lambda>u. Inr \<lparr>status_code = 404, content = ''gone''\<rparr>)\<rparr>"

definition env_extract_fails :: env where
  "env_extract_fails = env_ok\<lparr>parse_and_clean_pdf := (\<lambda>fs p. Inl (ExtractionError p))\<rparr>"

definition env_summarize_fails :: env where
  "env_summarize_fails =
     env_ok\<lparr>summarize_text := (\<lambda>a b c d e f. Inl (SummarizationError ''quota''))\<rparr>"

definition w0 :: world where
  "w0 = \<lparr>table = [], files = Map.empty, trace = []\<rparr>"

definition id_A :: string where
  "id_A = ''Paper_A_ICLR_2024_Conference_oral_openreview''"

definition id_B :: string where
  "id_B = ''Paper_B_ICLR_2024_Conference_oral_openreview''"

text \<open>A stored row for "Paper A" with the given summary.\<close>

definition row_A :: "pyval \<Rightarrow> row" where
  "row_A s = [(''id'', PStr id_A), (''platform'', PStr ''openreview''), (''collection'', PNone),
              (''title'', PStr ''Paper A''), (''pdf_url'', PStr ''http://x/a.pdf''),
              (''pdf_path'', PStr ''out/a.pdf''), (''content'', PStr ''text''), (''summary'', s)]"

definition w_done :: world where
  "w_done = \<lparr>table = [row_A (PStr ''digest'')], files = Map.empty, trace = []\<rparr>"

text \<open>
  Two scripts of scroll heights: one that settles at the fourth reading, one that grows
  with every scroll. A browser whose every session fails at \<open>driver.get\<close> and whose
  \<open>quit\<close> raises as well.
\<close>

definition heights_settling :: "nat \<Rightarrow> error + nat" where
  "heights_settling j = Inr (100 * min j 3)"

definition heights_growing :: "nat \<Rightarrow> error + nat" where
  "heights_growing j = Inr (100 * j)"

definition blank_page :: page where
  "blank_page = \<lparr>wait_error = None, heights = (\<lambda>j. Inr 0), items = [],
                  next_control = Inl (WebDriverException ''no such element'')\<rparr>"

definition browser_flaky :: browser where
  "browser_flaky n = Inr \<lparr>get_error = Some (WebDriverException ''unreachable''),
                          pages = (\<lambda>n. blank_page), quit_error = Some ''session gone''\<rparr>"

section \<open>Auxiliary facts\<close>


lemma filter_key_none: "k \<notin> f ` set xs \<Longrightarrow> filter (\<lambda>y. f y = k) xs = []"
  by (induction xs) auto

lemma filter_key_distinct:
  "distinct (map f xs) \<Longrightarrow> x \<in> set xs \<Longrightarrow> filter (\<lambda>y. f y = f x) xs = [x]"
proof (induction xs)
  case Nil
  then show ?case by simp
next
  case (Cons a xs)
  from Cons.prems have notin: "f a \<notin> f ` set xs" and d: "distinct (map f xs)" by simp_all
  show ?case
  proof (cases "a = x")
    case True
    with notin show ?thesis by (simp add: filter_key_none)
  next
    case False
    with Cons.prems have x: "x \<in> set xs" by simp
    with notin have "f a \<noteq> f x" by blast
    with Cons.IH [OF d x] show ?thesis by simp
  qed
qed

lemma get_papers_id:
  "get_papers Paper t [(''id'', k)] = Inr (filter (\<lambda>r. getattr r ''id'' = k) t)"
  by (simp add: get_papers_def Paper_def)

lemma env_sel:
  "clean_text env_ok = clean_text_model" "clean_text env_404 = clean_text_model"
  "clean_text env_extract_fails = clean_text_model"
  "clean_text env_summarize_fails = clean_text_model"
  "http_get env_404 u = Inr \<lparr>status_code = 404, content = ''gone''\<rparr>"
  "http_get env_extract_fails u = Inr \<lparr>status_code = 200, content = ''%PDF''\<rparr>"
  "http_get env_summarize_fails u = Inr \<lparr>status_code = 200, content = ''%PDF''\<rparr>"
  "http_get env_ok u = Inr \<lparr>status_code = 200, content = ''%PDF''\<rparr>"
  "can_write env_extract_fails p" "can_write env_summarize_fails p" "can_write env_ok p"
  "parse_and_clean_pdf env_extract_fails fs p = Inl (ExtractionError p)"
  "parse_and_clean_pdf env_summarize_fails fs p = Inr ''text''"
  "parse_and_clean_pdf env_ok fs p = Inr ''text''"
  "summarize_text env_summarize_fails a b c d e f = Inl (SummarizationError ''quota'')"
  "summarize_text env_ok a b c d e f = Inr ''digest''"
  by (simp_all add: env_404_def env_extract_fails_def env_summarize_fails_def env_ok_def)

lemma id_eval:
  "clean_text E = clean_text_model \<Longrightarrow> processed_id E cfg0 ''Paper A'' = id_A"
  "clean_text E = clean_text_model \<Longrightarrow> processed_id E cfg0 ''Paper B'' = id_B"
  by (simp_all add: processed_id_def cfg0_def id_A_def id_B_def clean_text_model_def
        printable_ascii_def isspace_def startswith_def str_int_def str_nat.simps digit_char_def)

lemma id_A_eval:
  "processed_id env_ok cfg0 ''Paper A'' = id_A"
  "processed_id env_404 cfg0 ''Paper A'' = id_A"
  "processed_id env_extract_fails cfg0 ''Paper A'' = id_A"
  "processed_id env_summarize_fails cfg0 ''Paper A'' = id_A"
  by (simp_all add: id_eval env_sel)

lemma ctor_Paper:
  "declarative_constructor Paper (paper_kwargs cfg pid pt url pp tx sm) = Inl (TypeError ''conference'')"
  by (simp add: declarative_constructor_def paper_kwargs_def Paper_def hasattr_def
        inherited_attributes_def)

lemma path_A: "path_join ''out'' (id_A @ ''.pdf'') = ''out/'' @ id_A @ ''.pdf''"
  by (simp add: path_join_def startswith_def id_A_def)

lemma cfg0_sel:
  "output_dir cfg0 = ''out''" "content_cap cfg0 = 0" "delay cfg0 = 2"
  "prefix cfg0 = ''Summarize: ''" "suffix cfg0 = []" "provider cfg0 = ''p''"
  "model_name cfg0 = ''m''" "param cfg0 = []" "conference cfg0 = ''ICLR''" "year cfg0 = 2024"
  "track cfg0 = ''Conference''" "submission_type cfg0 = ''oral''" "platform cfg0 = ''openreview''"
  by (simp_all add: cfg0_def)

lemma path_join_nonempty: "b \<noteq> [] \<Longrightarrow> path_join a b \<noteq> []"
  by (simp add: path_join_def)

lemma not_already:
  assumes "\<forall>r \<in> set t. getattr r ''id'' = k \<longrightarrow> \<not> truthy (getattr r ''summary'')"
  shows "\<not> (case filter (\<lambda>r. getattr r ''id'' = k) t of [] \<Rightarrow> False | r # _ \<Rightarrow> truthy (getattr r ''summary''))"
proof (cases "filter (\<lambda>r. getattr r ''id'' = k) t")
  case Nil
  then show ?thesis by simp
next
  case (Cons r rs)
  then have "r \<in> set (filter (\<lambda>r. getattr r ''id'' = k) t)" by simp
  then have "r \<in> set t" "getattr r ''id'' = k" by simp_all
  with assms have "\<not> truthy (getattr r ''summary'')" by blast
  with Cons show ?thesis by simp
qed

lemma scroll_count_le:
  "count_list (snd (scroll_loop hs l a)) Scroll \<le> max_scroll_attempts - a"
proof (induction hs l a rule: scroll_loop.induct)
  case (1 hs last_height scroll_attempts)
  show ?case
  proof (cases "scroll_attempts < max_scroll_attempts")
    case False
    then show ?thesis by (simp add: scroll_loop.simps [of hs last_height scroll_attempts])
  next
    case lt: True
    show ?thesis
    proof (cases "hs (Suc scroll_attempts)")
      case (Inl e)
      with lt show ?thesis by (simp add: scroll_loop.simps [of hs last_height scroll_attempts])
    next
      case (Inr h)
      show ?thesis
      proof (cases "h = last_height")
        case True
        with lt Inr show ?thesis by (simp add: scroll_loop.simps [of hs last_height scroll_attempts])
      next
        case False
        from "1.IH" [OF lt Inr False]
        have "count_list (snd (scroll_loop hs h (scroll_attempts + 1))) Scroll
                \<le> max_scroll_attempts - (scroll_attempts + 1)" .
        with lt Inr False show ?thesis
          by (auto simp add: scroll_loop.simps [of hs last_height scroll_attempts] split: prod.splits)
      qed
    qed
  qed
qed

lemma scroll_events:
  "set (snd (scroll_loop hs l a)) \<subseteq> {Scroll, Sleep 3}"
proof (induction hs l a rule: scroll_loop.induct)
  case (1 hs last_height scroll_attempts)
  show ?case
  proof (cases "scroll_attempts < max_scroll_attempts")
    case False
    then show ?thesis by (simp add: scroll_loop.simps [of hs last_height scroll_attempts])
  next
    case lt: True
    show ?thesis
    proof (cases "hs (Suc scroll_attempts)")
      case (Inl e)
      with lt show ?thesis by (simp add: scroll_loop.simps [of hs last_height scroll_attempts])
    next
      case (Inr h)
      show ?thesis
      proof (cases "h = last_height")
        case True
        with lt Inr show ?thesis by (simp add: scroll_loop.simps [of hs last_height scroll_attempts])
      next
        case False
        from "1.IH" [OF lt Inr False]
        have "set (snd (scroll_loop hs h (scroll_attempts + 1))) \<subseteq> {Scroll, Sleep 3}" .
        with lt Inr False show ?thesis
          by (auto simp add: scroll_loop.simps [of hs last_height scroll_attempts] split: prod.splits)
      qed
    qed
  qed
qed

lemma scroll_stop:
  "k - a = n \<Longrightarrow> a \<le> k \<Longrightarrow> k < max_scroll_attempts
   \<Longrightarrow> (\<forall>j. a \<le> j \<and> j \<le> k \<longrightarrow> hs (Suc j) = Inr (g (Suc j)))
   \<Longrightarrow> (\<forall>j. a \<le> j \<and> j < k \<longrightarrow> g (Suc j) \<noteq> g j)
   \<Longrightarrow> g (Suc k) = g k
   \<Longrightarrow> scroll_loop hs (g a) a = (Inr (), concat (replicate (Suc k - a) [Scroll, Sleep 3]))"
proof (induction n arbitrary: a)
  case 0
  then have ak: "a = k" by simp
  with 0 have "hs (Suc k) = Inr (g (Suc k))" by simp
  with 0 ak show ?case by (simp add: scroll_loop.simps [of hs "g k" k])
next
  case (Suc n)
  then have lt: "a < k" by simp
  with Suc.prems have h: "hs (Suc a) = Inr (g (Suc a))" and ne: "g (Suc a) \<noteq> g a" by simp_all
  have "scroll_loop hs (g (Suc a)) (Suc a)
          = (Inr (), concat (replicate (Suc k - Suc a) [Scroll, Sleep 3]))"
    using Suc.prems lt by (intro Suc.IH) simp_all
  moreover have "Suc k - a = Suc (Suc k - Suc a)" using lt by simp
  ultimately show ?case
    using lt Suc.prems(3) h ne by (simp add: scroll_loop.simps [of hs "g a" a])
qed

lemma scroll_grow:
  "max_scroll_attempts - a = n \<Longrightarrow> a \<le> max_scroll_attempts
   \<Longrightarrow> (\<forall>j. a \<le> j \<and> j < max_scroll_attempts \<longrightarrow> hs (Suc j) = Inr (g (Suc j)) \<and> g (Suc j) \<noteq> g j)
   \<Longrightarrow> scroll_loop hs (g a) a = (Inr (), concat (replicate (max_scroll_attempts - a) [Scroll, Sleep 3]))"
proof (induction n arbitrary: a)
  case 0
  then have "\<not> a < max_scroll_attempts" and "max_scroll_attempts - a = 0" by simp_all
  then show ?case by (simp add: scroll_loop.simps [of hs "g a" a])
next
  case (Suc n)
  then have lt: "a < max_scroll_attempts" by simp
  with Suc.prems have h: "hs (Suc a) = Inr (g (Suc a))" and ne: "g (Suc a) \<noteq> g a" by simp_all
  have "scroll_loop hs (g (Suc a)) (Suc a)
          = (Inr (), concat (replicate (max_scroll_attempts - Suc a) [Scroll, Sleep 3]))"
    using Suc.prems lt by (intro Suc.IH) simp_all
  moreover have "max_scroll_attempts - a = Suc (max_scroll_attempts - Suc a)" using lt by simp
  ultimately show ?case
    using lt h ne by (simp add: scroll_loop.simps [of hs "g a" a])
qed

lemma page_loop_events:
  "page_loop fuel s n ps = Some (r, evs) \<Longrightarrow> set evs \<subseteq> {Scroll, Sleep 3, Click}"
proof (induction fuel arbitrary: n ps r evs)
  case 0
  then show ?case by simp
next
  case (Suc fuel)
  let ?pg = "pages s n"
  show ?case
  proof (cases "wait_error ?pg")
    case (Some e)
    with Suc.prems show ?thesis by (simp add: Let_def)
  next
    case None
    show ?thesis
    proof (cases "heights ?pg 0")
      case (Inl e)
      with None Suc.prems show ?thesis by (simp add: Let_def)
    next
      case (Inr h)
      obtain sr sevs where sl: "scroll_loop (heights ?pg) h 0 = (sr, sevs)" by force
      have sev: "set sevs \<subseteq> {Scroll, Sleep 3}"
        using scroll_events [of "heights ?pg" h 0] sl by simp
      show ?thesis
      proof (cases sr)
        case (Inl e)
        with None Inr sl Suc.prems sev show ?thesis by (auto simp add: Let_def)
      next
        case sok: (Inr u)
        let ?ps = "ps @ extract_notes (items ?pg)"
        show ?thesis
        proof (cases "page_loop fuel s (n + 1) ?ps")
          case pn: None
          with None Inr sl sok Suc.prems sev show ?thesis
            by (auto simp add: Let_def split: sum.splits option.splits if_splits)
        next
          case (Some q)
          obtain r' evs' where q: "q = (r', evs')" by force
          with Some have "set evs' \<subseteq> {Scroll, Sleep 3, Click}" using Suc.IH by blast
          with None Inr sl sok Suc.prems sev Some q show ?thesis
            by (auto simp add: Let_def split: sum.splits option.splits if_splits)
        qed
      qed
    qed
  qed
qed

lemma count_list_0: "x \<notin> set xs \<Longrightarrow> count_list xs x = 0"
  by (induction xs) auto

lemma try_body_counts:
  assumes "try_body fuel B url i = Some (r, evs)"
  shows "count_list evs Setup = 1 \<and> count_list evs (Sleep 5) = 0"
proof (cases "B i")
  case (Inl e)
  with assms show ?thesis by (auto simp add: try_body_def)
next
  case (Inr s)
  show ?thesis
  proof (cases "get_error s")
    case (Some e)
    with Inr assms show ?thesis by (auto simp add: try_body_def)
  next
    case None
    with Inr assms obtain pevs where pl: "page_loop fuel s 1 [] = Some (r, pevs)"
      and evs: "evs = Setup # Get url # pevs"
      by (auto simp add: try_body_def split: option.splits)
    from page_loop_events [OF pl] have "Setup \<notin> set pevs" "Sleep 5 \<notin> set pevs" by auto
    with evs show ?thesis by (simp add: count_list_0)
  qed
qed

lemma finally_quit_counts:
  "count_list (finally_quit d) Setup = 0 \<and> count_list (finally_quit d) (Sleep 5) = 0"
  by (simp add: finally_quit_def split: option.splits)

lemma count_list_append: "count_list (xs @ ys) x = count_list xs x + count_list ys x"
  by (induction xs) auto

lemma retry_all_fail:
  "m - rc = n \<Longrightarrow> rc < m
   \<Longrightarrow> (\<forall>i. rc \<le> i \<and> i < m \<longrightarrow> (\<exists>e evs. try_body fuel B url i = Some (Inl e, evs)))
   \<Longrightarrow> \<exists>e evs evs'. retry_loop fuel B url m rc d = Some (Inl e, evs)
         \<and> try_body fuel B url (m - 1) = Some (Inl e, evs')
         \<and> count_list evs Setup = m - rc
         \<and> count_list evs (Sleep 5) = m - rc - 1"
proof (induction n arbitrary: rc d)
  case 0
  then show ?case by simp
next
  case (Suc n)
  from Suc.prems obtain e evs where tb: "try_body fuel B url rc = Some (Inl e, evs)" by force
  note cnt = try_body_counts [OF tb]
  let ?d = "driver_after B rc d"
  show ?case
  proof (cases "rc + 1 < m")
    case False
    with Suc.prems have rc: "rc = m - 1" by simp
    have "retry_loop fuel B url m rc d = Some (Inl e, evs @ finally_quit ?d)"
      using Suc.prems(2) False tb by (simp add: retry_loop.simps [of fuel B url m rc d])
    moreover have "count_list (evs @ finally_quit ?d) Setup = m - rc"
      using cnt rc Suc.prems(2) by (simp add: count_list_append finally_quit_counts)
    moreover have "count_list (evs @ finally_quit ?d) (Sleep 5) = m - rc - 1"
      using cnt rc by (simp add: count_list_append finally_quit_counts)
    ultimately show ?thesis using tb rc by blast
  next
    case True
    have "\<exists>e evs evs'. retry_loop fuel B url m (rc + 1) ?d = Some (Inl e, evs)
         \<and> try_body fuel B url (m - 1) = Some (Inl e, evs')
         \<and> count_list evs Setup = m - (rc + 1)
         \<and> count_list evs (Sleep 5) = m - (rc + 1) - 1"
      using Suc.prems True by (intro Suc.IH) simp_all
    then obtain e2 evs2 evs' where
      rl: "retry_loop fuel B url m (rc + 1) ?d = Some (Inl e2, evs2)"
      and last: "try_body fuel B url (m - 1) = Some (Inl e2, evs')"
      and c1: "count_list evs2 Setup = m - (rc + 1)"
      and c2: "count_list evs2 (Sleep 5) = m - (rc + 1) - 1" by blast
    have "retry_loop fuel B url m rc d
            = Some (Inl e2, evs @ [Sleep 5] @ finally_quit ?d @ evs2)"
      using Suc.prems(2) True tb rl by (simp add: retry_loop.simps [of fuel B url m rc d])
    moreover have "count_list (evs @ [Sleep 5] @ finally_quit ?d @ evs2) Setup = m - rc"
      using cnt c1 True by (simp add: count_list_append finally_quit_counts)
    moreover have "count_list (evs @ [Sleep 5] @ finally_quit ?d @ evs2) (Sleep 5) = m - rc - 1"
      using cnt c2 True by (simp add: count_list_append finally_quit_counts)
    ultimately show ?thesis using last by blast
  qed
qed

lemma url0: "base_url ''ICLR'' 2024 ''Conference'' (Some ''oral'')
               = ''https://openreview.net/group?id=ICLR.cc/2024/Conference#oral''"
  by (simp add: base_url_def str_int_def str_nat.simps digit_char_def)

lemma scrape_flaky_eval:
  "scrape_openreview 1 browser_flaky ''ICLR'' 2024 ''Conference'' (Some ''oral'') 3 =
     Some (Inl (WebDriverException ''unreachable''),
           [Setup, Get ''https://openreview.net/group?id=ICLR.cc/2024/Conference#oral'', Sleep 5,
            Quit, Print ''Error closing driver: session gone'',
            Setup, Get ''https://openreview.net/group?id=ICLR.cc/2024/Conference#oral'', Sleep 5,
            Quit, Print ''Error closing driver: session gone'',
            Setup, Get ''https://openreview.net/group?id=ICLR.cc/2024/Conference#oral'',
            Quit, Print ''Error closing driver: session gone''])"
  by (simp add: scrape_openreview_def url0 retry_loop.simps try_body_def browser_flaky_def
        finally_quit_def driver_after_def)

lemma add_entry_distinct:
  "distinct (map (\<lambda>r. getattr r (primary_key cls)) t)
   \<Longrightarrow> distinct (map (\<lambda>r. getattr r (primary_key cls)) (snd (add_entry cls t p)))"
  by (simp add: add_entry_def Let_def)

lemma lower_openreview: "lower ''openreview'' = ''openreview''"
  by (simp add: lower_def lower_char_def)

lemma driver_step:
  "d = (case rc of 0 \<Rightarrow> None | Suc j \<Rightarrow> driver_at B j) \<Longrightarrow> driver_after B rc d = driver_at B rc"
  by (cases rc) simp_all

lemma retry_trace:
  "m - rc = n \<Longrightarrow> rc < m
   \<Longrightarrow> (\<forall>i. rc \<le> i \<and> i < m \<longrightarrow> (\<exists>e. try_body fuel B url i = Some (Inl e, tev i)))
   \<Longrightarrow> d = (case rc of 0 \<Rightarrow> None | Suc j \<Rightarrow> driver_at B j)
   \<Longrightarrow> \<exists>e. retry_loop fuel B url m rc d =
          Some (Inl e, concat (map (\<lambda>i. tev i @ (if Suc i < m then [Sleep 5] else [])
                                          @ finally_quit (driver_at B i)) [rc..<m]))"
proof (induction n arbitrary: rc d)
  case 0
  then show ?case by simp
next
  case (Suc n)
  from Suc.prems obtain e where tb: "try_body fuel B url rc = Some (Inl e, tev rc)" by force
  have da: "driver_after B rc d = driver_at B rc" using Suc.prems(4) by (rule driver_step)
  have upt: "[rc..<m] = rc # [Suc rc..<m]" using Suc.prems(2) by (simp add: upt_conv_Cons)
  show ?case
  proof (cases "rc + 1 < m")
    case False
    with Suc.prems(2) have "Suc rc = m" by simp
    then have "[Suc rc..<m] = []" by simp
    with upt False tb da Suc.prems(2) show ?thesis
      by (simp add: retry_loop.simps [of fuel B url m rc d])
  next
    case True
    have "\<exists>e. retry_loop fuel B url m (Suc rc) (driver_at B rc) =
          Some (Inl e, concat (map (\<lambda>i. tev i @ (if Suc i < m then [Sleep 5] else [])
                                          @ finally_quit (driver_at B i)) [Suc rc..<m]))"
      using Suc.prems True by (intro Suc.IH) simp_all
    then obtain e2 where "retry_loop fuel B url m (Suc rc) (driver_at B rc) =
          Some (Inl e2, concat (map (\<lambda>i. tev i @ (if Suc i < m then [Sleep 5] else [])
                                          @ finally_quit (driver_at B i)) [Suc rc..<m]))"
      by blast
    with upt True tb da Suc.prems(2) show ?thesis
      by (simp add: retry_loop.simps [of fuel B url m rc d])
  qed
qed

lemma concat_map_member:
  "i < m \<Longrightarrow> x \<in> set (f i) \<Longrightarrow> x \<in> set (concat (map f [0..<m]))"
  by auto

lemma flaky_try:
  "try_body fuel browser_flaky u i = Some (Inl (WebDriverException ''unreachable''), [Setup, Get u])"
  by (simp add: try_body_def browser_flaky_def)

lemma flaky_driver:
  "driver_at browser_flaky i =
     Some \<lparr>get_error = Some (WebDriverException ''unreachable''),
           pages = (\<lambda>n. blank_page), quit_error = Some ''session gone''\<rparr>"
  by (cases i) (simp_all add: driver_after_def browser_flaky_def)

lemma upt_3: "[0..<3] = [0, 1, 2]"
  by (simp add: upt_rec)









section \<open>The resume laws\<close>

text \<open>
  C1 (resume skip law). The ids of the table are unique (\<open>id\<close> is the primary key). When
  the table holds a row whose id is the one derived from the entry and whose summary is
  non-empty, the loop body ends as \<open>Skipped\<close>: the table and the files are unchanged, and
  the only things done are the query and the report, so neither the downloader nor the
  extractor nor the summarizer is called and nothing is inserted.
\<close>

theorem resume_skip:
  assumes "r \<in> set (table w)"
    and "getattr r ''id'' = PStr (processed_id E cfg title)"
    and "truthy (getattr r ''summary'')"
    and "distinct (map (\<lambda>r. getattr r ''id'') (table w))"
  shows "process_paper Paper E cfg (title, url) w =
           (Inr Skipped,
            w\<lparr>trace := trace w @ [Query (processed_id E cfg title),
                                    Print (''Skipping '' @ title @ '', already processed.'')]\<rparr>)"
proof -
  have "filter (\<lambda>y. getattr y ''id'' = getattr r ''id'') (table w) = [r]"
    using assms(4) assms(1) by (rule filter_key_distinct)
  then have "get_papers Paper (table w) [(''id'', PStr (processed_id E cfg title))] = Inr [r]"
    using assms(2) by (simp add: get_papers_id)
  then show ?thesis
    using assms(3) by (simp add: process_paper_def emit_def Let_def)
qed

theorem resume_skip_witness:
  "process_paper Paper env_ok cfg0 (''Paper A'', ''http://x/a.pdf'') w_done =
     (Inr Skipped,
      w_done\<lparr>trace := [Query id_A, Print ''Skipping Paper A, already processed.'']\<rparr>)"
proof -
  have 1: "row_A (PStr ''digest'') \<in> set (table w_done)" by (simp add: w_done_def)
  have 2: "getattr (row_A (PStr ''digest'')) ''id'' = PStr (processed_id env_ok cfg0 ''Paper A'')"
    by (simp add: id_A_eval row_A_def getattr_def)
  have 3: "truthy (getattr (row_A (PStr ''digest'')) ''summary'')"
    by (simp add: row_A_def getattr_def)
  have 4: "distinct (map (\<lambda>r. getattr r ''id'') (table w_done))" by (simp add: w_done_def)
  show ?thesis
    using resume_skip [OF 1 2 3 4, where url = "''http://x/a.pdf''"]
    by (simp add: id_A_eval w_done_def)
qed

text \<open>
  C2 (resume retry law). With no row for the id, the body queries, downloads, extracts
  and summarizes, and then the call \<open>Paper(...)\<close> raises \<open>TypeError\<close>, because
  \<open>conference\<close> is no attribute of the class of sql.py: nothing is inserted, and the
  exception leaves the loop.
\<close>

theorem retry_hits_constructor:
  "process_paper Paper env_ok cfg0 (''Paper A'', ''http://x/a.pdf'') w0 =
     (Inl (TypeError ''conference''),
      \<lparr>table = [],
       files = [''out/'' @ id_A @ ''.pdf'' \<mapsto> ''%PDF''],
       trace = [Query id_A, Download (id_A @ ''.pdf'') ''http://x/a.pdf'',
                Extract (''out/'' @ id_A @ ''.pdf''), Summarize ''text'']\<rparr>)"
  by (simp add: process_paper_def id_A_eval get_papers_id ctor_Paper download_pdf_def path_A
        emit_def Let_def w0_def env_sel cfg0_sel)

section \<open>Failures in the batch\<close>

text \<open>
  The claim that a failure of the extractor is caught and the batch goes on does not hold:
  with two entries and an extractor that raises, the loop ends with that exception after
  the first entry, and the second entry is never looked up.
\<close>

theorem extractor_failure_counterexample:
  "fst (process_papers Paper env_extract_fails cfg0
          [(''Paper A'', ''http://x/a.pdf''), (''Paper B'', ''http://x/b.pdf'')] w0)
     = Inl (ExtractionError (''out/'' @ id_A @ ''.pdf''))
   \<and> trace (snd (process_papers Paper env_extract_fails cfg0
          [(''Paper A'', ''http://x/a.pdf''), (''Paper B'', ''http://x/b.pdf'')] w0))
     = [Query id_A, Download (id_A @ ''.pdf'') ''http://x/a.pdf'',
        Extract (''out/'' @ id_A @ ''.pdf'')]"
  by (simp add: process_paper_def id_A_eval get_papers_id download_pdf_def path_A
        emit_def Let_def w0_def env_sel cfg0_sel)

text \<open>
  C3, as the code has it. For an entry that is not yet processed: a download that answers
  another status than 200 writes no row and no file, and the loop goes on with the next
  entry; an exception of the text extractor or of the summarizer is not caught, so the
  loop ends with it, the table is unchanged and the rest of the listing is not processed.
\<close>

theorem failure_handling:
  assumes fresh: "\<forall>r \<in> set (table w). getattr r ''id'' = PStr pid
                    \<longrightarrow> \<not> truthy (getattr r ''summary'')"
    and pid: "pid = processed_id E cfg title"
    and path: "path = path_join (output_dir cfg) (pid @ ''.pdf'')"
    and capped: "capped = (if content_cap cfg \<noteq> 0 then slice_to text0 (content_cap cfg)
                            else text0)"
  shows
   "(http_get E url = Inr resp \<and> status_code resp \<noteq> 200 \<longrightarrow>
       process_papers Paper E cfg ((title, url) # rest) w =
         process_papers Paper E cfg rest
           (w\<lparr>trace := trace w @ [Query pid, Download (pid @ ''.pdf'') url,
                                   Print (''Failed to download '' @ title @ ''.'')]\<rparr>))
    \<and> (http_get E url = Inr resp \<and> status_code resp = 200 \<and> can_write E path
         \<and> parse_and_clean_pdf E ((files w)(path \<mapsto> content resp)) path = Inl e \<longrightarrow>
       process_papers Paper E cfg ((title, url) # rest) w =
         (Inl e,
          w\<lparr>files := (files w)(path \<mapsto> content resp),
            trace := trace w @ [Query pid, Download (pid @ ''.pdf'') url, Extract path]\<rparr>))
    \<and> (http_get E url = Inr resp \<and> status_code resp = 200 \<and> can_write E path
         \<and> parse_and_clean_pdf E ((files w)(path \<mapsto> content resp)) path = Inr text0
         \<and> summarize_text E (prefix cfg) (suffix cfg) capped (provider cfg) (model_name cfg)
              (param cfg) = Inl e \<longrightarrow>
       process_papers Paper E cfg ((title, url) # rest) w =
         (Inl e,
          w\<lparr>files := (files w)(path \<mapsto> content resp),
            trace := trace w @ [Query pid, Download (pid @ ''.pdf'') url, Extract path,
                                Summarize capped]\<rparr>))"
proof -
  have na: "\<not> (case filter (\<lambda>r. getattr r ''id'' = PStr pid) (table w) of
                  [] \<Rightarrow> False | r # _ \<Rightarrow> truthy (getattr r ''summary''))"
    using fresh by (rule not_already)
  have pne: "path \<noteq> []" unfolding path by (rule path_join_nonempty) simp
  show ?thesis
    using na pne unfolding capped
    by (simp add: process_paper_def get_papers_id download_pdf_def emit_def Let_def
          pid [symmetric] path [symmetric])
qed

theorem failure_handling_witness:
  "process_papers Paper env_404 cfg0 [(''Paper A'', ''http://x/a.pdf'')] w0 =
     (Inr (), w0\<lparr>trace := [Query id_A, Download (id_A @ ''.pdf'') ''http://x/a.pdf'',
                             Print ''Failed to download Paper A.'']\<rparr>)
   \<and> process_papers Paper env_extract_fails cfg0
        [(''Paper A'', ''http://x/a.pdf''), (''Paper B'', ''http://x/b.pdf'')] w0 =
     (Inl (ExtractionError (''out/'' @ id_A @ ''.pdf'')),
      w0\<lparr>files := [''out/'' @ id_A @ ''.pdf'' \<mapsto> ''%PDF''],
         trace := [Query id_A, Download (id_A @ ''.pdf'') ''http://x/a.pdf'',
                   Extract (''out/'' @ id_A @ ''.pdf'')]\<rparr>)
   \<and> process_papers Paper env_summarize_fails cfg0
        [(''Paper A'', ''http://x/a.pdf''), (''Paper B'', ''http://x/b.pdf'')] w0 =
     (Inl (SummarizationError ''quota''),
      w0\<lparr>files := [''out/'' @ id_A @ ''.pdf'' \<mapsto> ''%PDF''],
         trace := [Query id_A, Download (id_A @ ''.pdf'') ''http://x/a.pdf'',
                   Extract (''out/'' @ id_A @ ''.pdf''), Summarize ''text'']\<rparr>)"
proof -
  have fresh: "\<forall>r \<in> set (table w0). getattr r ''id'' = PStr id_A
                 \<longrightarrow> \<not> truthy (getattr r ''summary'')"
    by (simp add: w0_def)
  have pid1: "id_A = processed_id env_404 cfg0 ''Paper A''" by (simp add: id_A_eval)
  have pid2: "id_A = processed_id env_extract_fails cfg0 ''Paper A''" by (simp add: id_A_eval)
  have pid3: "id_A = processed_id env_summarize_fails cfg0 ''Paper A''" by (simp add: id_A_eval)
  have path: "''out/'' @ id_A @ ''.pdf'' = path_join (output_dir cfg0) (id_A @ ''.pdf'')"
    by (simp add: path_A cfg0_sel)
  have capped: "''text'' = (if content_cap cfg0 \<noteq> 0 then slice_to ''text'' (content_cap cfg0)
                            else ''text'')"
    by (simp add: cfg0_sel)
  have a: "process_papers Paper env_404 cfg0 [(''Paper A'', ''http://x/a.pdf'')] w0 =
     (Inr (), w0\<lparr>trace := [Query id_A, Download (id_A @ ''.pdf'') ''http://x/a.pdf'',
                             Print ''Failed to download Paper A.'']\<rparr>)"
    using failure_handling [OF fresh pid1 path capped, where url = "''http://x/a.pdf''"
                  and resp = "\<lparr>status_code = 404, content = ''gone''\<rparr>" and rest = "[]"]
    by (simp add: env_sel w0_def)
  have b: "process_papers Paper env_extract_fails cfg0
        [(''Paper A'', ''http://x/a.pdf''), (''Paper B'', ''http://x/b.pdf'')] w0 =
     (Inl (ExtractionError (''out/'' @ id_A @ ''.pdf'')),
      w0\<lparr>files := [''out/'' @ id_A @ ''.pdf'' \<mapsto> ''%PDF''],
         trace := [Query id_A, Download (id_A @ ''.pdf'') ''http://x/a.pdf'',
                   Extract (''out/'' @ id_A @ ''.pdf'')]\<rparr>)"
    using failure_handling [OF fresh pid2 path capped, where url = "''http://x/a.pdf''"
                  and resp = "\<lparr>status_code = 200, content = ''%PDF''\<rparr>"
                  and e = "ExtractionError (''out/'' @ id_A @ ''.pdf'')"
                  and rest = "[(''Paper B'', ''http://x/b.pdf'')]"]
    by (simp add: env_sel w0_def)
  have c: "process_papers Paper env_summarize_fails cfg0
        [(''Paper A'', ''http://x/a.pdf''), (''Paper B'', ''http://x/b.pdf'')] w0 =
     (Inl (SummarizationError ''quota''),
      w0\<lparr>files := [''out/'' @ id_A @ ''.pdf'' \<mapsto> ''%PDF''],
         trace := [Query id_A, Download (id_A @ ''.pdf'') ''http://x/a.pdf'',
                   Extract (''out/'' @ id_A @ ''.pdf''), Summarize ''text'']\<rparr>)"
    using failure_handling [OF fresh pid3 path capped, where url = "''http://x/a.pdf''"
                  and resp = "\<lparr>status_code = 200, content = ''%PDF''\<rparr>"
                  and e = "SummarizationError ''quota''"
                  and rest = "[(''Paper B'', ''http://x/b.pdf'')]"]
    by (simp add: env_sel w0_def cfg0_sel)
  from a b c show ?thesis by simp
qed

section \<open>The persisted record\<close>

text \<open>
  C9 (the persisted record carries every provenance field). The call \<open>Paper(...)\<close> of
  main.py passes \<open>conference\<close>, \<open>year\<close>, \<open>track\<close> and \<open>submission_type\<close>, which the class
  of sql.py does not declare, so the constructor raises at \<open>conference\<close>; for every
  entry, collaborator and world the body never ends as \<open>Persisted\<close> and the table stays
  as it was.
\<close>

theorem never_persists:
  "declarative_constructor Paper (paper_kwargs cfg pid title url path text summary)
     = Inl (TypeError ''conference'')
   \<and> fst (process_paper Paper E cfg entry w) \<noteq> Inr Persisted
   \<and> table (snd (process_paper Paper E cfg entry w)) = table w"
  by (simp add: process_paper_def ctor_Paper emit_def Let_def get_papers_id
        split: sum.splits option.splits prod.splits list.splits)

text \<open>
  C10 (\<open>add_entry\<close> inserts and never updates). A row whose id is already in the table is
  refused with \<open>IntegrityError\<close> and the table is unchanged; a row with a new id is
  appended; in every case the table afterwards is the old one, or the old one with the
  new row appended.
\<close>

theorem add_entry_insert_only:
  "(getattr paper ''id'' \<noteq> PNone \<and> getattr paper ''id'' \<in> set (map (\<lambda>r. getattr r ''id'') t)
      \<longrightarrow> add_entry Paper t paper = (Inl (IntegrityError ''Paper''), t))
   \<and> (snd (add_entry Paper t paper) = t \<or> snd (add_entry Paper t paper) = t @ [paper])
   \<and> (getattr paper ''id'' \<noteq> PNone \<and> getattr paper ''id'' \<notin> set (map (\<lambda>r. getattr r ''id'') t)
      \<longrightarrow> add_entry Paper t paper = (Inr (), t @ [paper]))"
  by (simp add: add_entry_def Paper_def Let_def)

theorem add_entry_insert_only_witness:
  "add_entry Paper [row_A (PStr [])] (row_A (PStr ''digest''))
     = (Inl (IntegrityError ''Paper''), [row_A (PStr [])])
   \<and> add_entry Paper [] (row_A (PStr ''digest'')) = (Inr (), [row_A (PStr ''digest'')])"
  using add_entry_insert_only [of "row_A (PStr ''digest'')" "[row_A (PStr [])]"]
    add_entry_insert_only [of "row_A (PStr ''digest'')" "[]"]
  by (simp add: row_A_def getattr_def)

section \<open>The delay between papers\<close>

text \<open>
  The claim that the orchestrator pauses after every entry does not hold: with a delay of
  2 seconds configured, an entry that is skipped and an entry whose download answers 404
  both end without a \<open>Sleep\<close>.
\<close>

theorem delay_counterexample:
  "delay cfg0 = 2
   \<and> process_paper Paper env_ok cfg0 (''Paper A'', ''http://x/a.pdf'') w_done =
       (Inr Skipped,
        w_done\<lparr>trace := [Query id_A, Print ''Skipping Paper A, already processed.'']\<rparr>)
   \<and> process_paper Paper env_404 cfg0 (''Paper A'', ''http://x/a.pdf'') w0 =
       (Inr DownloadFailed,
        w0\<lparr>trace := [Query id_A, Download (id_A @ ''.pdf'') ''http://x/a.pdf'',
                       Print ''Failed to download Paper A.'']\<rparr>)"
  by (simp add: process_paper_def id_A_eval get_papers_id download_pdf_def
        emit_def Let_def w0_def w_done_def env_sel cfg0_sel row_A_def getattr_def)

text \<open>
  C4, as the code has it. An entry that is skipped as already processed is followed by
  no pause: the loop reports the skip and goes on at once with the rest of the listing,
  and the body has added no \<open>Sleep\<close> for the configured delay to the trace.
\<close>

theorem skip_without_pause:
  assumes "r \<in> set (table w)"
    and "getattr r ''id'' = PStr (processed_id E cfg title)"
    and "truthy (getattr r ''summary'')"
    and "distinct (map (\<lambda>r. getattr r ''id'') (table w))"
  shows "process_papers Paper E cfg ((title, url) # rest) w =
           process_papers Paper E cfg rest
             (w\<lparr>trace := trace w @ [Query (processed_id E cfg title),
                                     Print (''Skipping '' @ title @ '', already processed.'')]\<rparr>)
         \<and> count_list
              (drop (length (trace w)) (trace (snd (process_paper Paper E cfg (title, url) w))))
              (Sleep (delay cfg)) = 0"
proof -
  have "filter (\<lambda>y. getattr y ''id'' = getattr r ''id'') (table w) = [r]"
    using assms(4) assms(1) by (rule filter_key_distinct)
  then have "get_papers Paper (table w) [(''id'', PStr (processed_id E cfg title))] = Inr [r]"
    using assms(2) by (simp add: get_papers_id)
  then have "process_paper Paper E cfg (title, url) w =
           (Inr Skipped,
            w\<lparr>trace := trace w @ [Query (processed_id E cfg title),
                                    Print (''Skipping '' @ title @ '', already processed.'')]\<rparr>)"
    using assms(3) by (simp add: process_paper_def emit_def Let_def)
  then show ?thesis by simp
qed

theorem skip_without_pause_witness:
  "process_papers Paper env_404 cfg0
     [(''Paper A'', ''http://x/a.pdf''), (''Paper B'', ''http://x/b.pdf'')] w_done =
     (Inr (),
      w_done\<lparr>trace := [Query id_A, Print ''Skipping Paper A, already processed.'',
                         Query id_B, Download (id_B @ ''.pdf'') ''http://x/b.pdf'',
                         Print ''Failed to download Paper B.'']\<rparr>)"
proof -
  have 1: "row_A (PStr ''digest'') \<in> set (table w_done)" by (simp add: w_done_def)
  have 2: "getattr (row_A (PStr ''digest'')) ''id'' = PStr (processed_id env_404 cfg0 ''Paper A'')"
    by (simp add: id_A_eval row_A_def getattr_def)
  have 3: "truthy (getattr (row_A (PStr ''digest'')) ''summary'')"
    by (simp add: row_A_def getattr_def)
  have 4: "distinct (map (\<lambda>r. getattr r ''id'') (table w_done))" by (simp add: w_done_def)
  have b: "processed_id env_404 cfg0 ''Paper B'' = id_B" by (simp add: id_eval env_sel)
  have ne: "id_A \<noteq> id_B" by (simp add: id_A_def id_B_def)
  from skip_without_pause [OF 1 2 3 4, where url = "''http://x/a.pdf''"
         and rest = "[(''Paper B'', ''http://x/b.pdf'')]"]
  have "process_papers Paper env_404 cfg0
     [(''Paper A'', ''http://x/a.pdf''), (''Paper B'', ''http://x/b.pdf'')] w_done =
       process_papers Paper env_404 cfg0 [(''Paper B'', ''http://x/b.pdf'')]
         (w_done\<lparr>trace := trace w_done @ [Query (processed_id env_404 cfg0 ''Paper A''),
                                     Print (''Skipping '' @ ''Paper A'' @ '', already processed.'')]\<rparr>)"
    by blast
  then show ?thesis
    using ne
    by (simp add: process_paper_def id_A_eval b get_papers_id download_pdf_def
          emit_def Let_def w_done_def env_sel cfg0_sel row_A_def getattr_def)
qed

section \<open>The listing fetcher's loops\<close>

text \<open>
  C5 (retry exhaustion). With at least one attempt allowed and every attempt raising,
  \<open>scrape_openreview\<close> raises the exception of the last attempt, whatever \<open>driver.quit\<close>
  does; the driver has been set up exactly \<open>max_retries\<close> times, once per attempt, and
  the program has slept 5 seconds exactly \<open>max_retries - 1\<close> times. Called from \<open>main\<close>,
  with the default of 3 attempts, the exception ends the run before any paper is processed.
  The trace is, attempt by attempt: the events of the attempt, then the sleep of 5 seconds
  unless the attempt was the last, then the teardown. The teardown calls \<open>quit\<close> whenever
  \<open>driver\<close> holds a session, and a \<open>quit\<close> that raises is printed as
  "Error closing driver: ..." and changes nothing else.
\<close>

theorem retry_exhaustion:
  assumes "0 < max_retries"
    and "\<forall>i < max_retries. \<exists>e evs. try_body fuel B (base_url conf yr trk sub) i = Some (Inl e, evs)"
  shows "\<exists>e evs evs'.
           scrape_openreview fuel B conf yr trk sub max_retries = Some (Inl e, evs)
         \<and> try_body fuel B (base_url conf yr trk sub) (max_retries - 1) = Some (Inl e, evs')
         \<and> count_list evs Setup = max_retries
         \<and> count_list evs (Sleep 5) = max_retries - 1
         \<and> (max_retries = default_max_retries \<and> lower (platform cfg) = ''openreview''
              \<and> conf = conference cfg \<and> yr = year cfg \<and> trk = track cfg
              \<and> sub = Some (submission_type cfg)
            \<longrightarrow> main fuel B E cfg w = Some (Inl e, w\<lparr>trace := trace w @ evs\<rparr>))
         \<and> (\<exists>tev.
               (\<forall>i < max_retries. \<exists>e'.
                  try_body fuel B (base_url conf yr trk sub) i = Some (Inl e', tev i))
             \<and> evs = concat (map
                   (\<lambda>i. tev i
                        @ (if Suc i < max_retries then [Sleep 5] else [])
                        @ (case driver_at B i of
                             None \<Rightarrow> []
                           | Some s \<Rightarrow>
                               (case quit_error s of
                                  None \<Rightarrow> [Quit]
                                | Some msg \<Rightarrow> [Quit, Print (''Error closing driver: '' @ msg)])))
                   [0..<max_retries]))
         \<and> (\<forall>i s. i < max_retries \<and> driver_at B i = Some s \<longrightarrow> Quit \<in> set evs)
         \<and> (\<forall>i s msg. i < max_retries \<and> driver_at B i = Some s \<and> quit_error s = Some msg
               \<longrightarrow> Print (''Error closing driver: '' @ msg) \<in> set evs)"
proof -
  let ?url = "base_url conf yr trk sub"
  let ?f = "\<lambda>tev i. tev i @ (if Suc i < max_retries then [Sleep 5] else [])
                        @ (case driver_at B i of
                             None \<Rightarrow> []
                           | Some s \<Rightarrow>
                               (case quit_error s of
                                  None \<Rightarrow> [Quit]
                                | Some msg \<Rightarrow> [Quit, Print (''Error closing driver: '' @ msg)]))"
  from retry_all_fail [of max_retries 0 max_retries fuel B ?url None] assms
  obtain e evs evs' where
    r: "scrape_openreview fuel B conf yr trk sub max_retries = Some (Inl e, evs)"
    and l: "try_body fuel B ?url (max_retries - 1) = Some (Inl e, evs')"
    and c1: "count_list evs Setup = max_retries"
    and c2: "count_list evs (Sleep 5) = max_retries - 1"
    by (auto simp add: scrape_openreview_def)
  have m: "max_retries = default_max_retries \<and> lower (platform cfg) = ''openreview''
              \<and> conf = conference cfg \<and> yr = year cfg \<and> trk = track cfg
              \<and> sub = Some (submission_type cfg)
            \<longrightarrow> main fuel B E cfg w = Some (Inl e, w\<lparr>trace := trace w @ evs\<rparr>)"
    using r by (auto simp add: main_def)
  from assms(2) have "\<forall>i. \<exists>evs. i < max_retries \<longrightarrow> (\<exists>e. try_body fuel B ?url i = Some (Inl e, evs))"
    by auto
  then have "\<exists>tev. \<forall>i. i < max_retries \<longrightarrow> (\<exists>e. try_body fuel B ?url i = Some (Inl e, tev i))"
    by (rule choice)
  then obtain tev where
    tev: "\<forall>i. i < max_retries \<longrightarrow> (\<exists>e. try_body fuel B ?url i = Some (Inl e, tev i))"
    by blast
  have "\<exists>e. retry_loop fuel B ?url max_retries 0 None =
          Some (Inl e, concat (map (\<lambda>i. tev i @ (if Suc i < max_retries then [Sleep 5] else [])
                                          @ finally_quit (driver_at B i)) [0..<max_retries]))"
    using assms(1) tev by (intro retry_trace [where n = max_retries]) simp_all
  with r have evs: "evs = concat (map (?f tev) [0..<max_retries])"
    by (auto simp add: scrape_openreview_def finally_quit_def)
  have q: "\<forall>i s. i < max_retries \<and> driver_at B i = Some s \<longrightarrow> Quit \<in> set evs"
  proof (intro allI impI)
    fix i s assume a: "i < max_retries \<and> driver_at B i = Some s"
    then have "Quit \<in> set (?f tev i)" by (simp split: option.splits)
    with a show "Quit \<in> set evs" unfolding evs by (intro concat_map_member [of i]) simp_all
  qed
  have p: "\<forall>i s msg. i < max_retries \<and> driver_at B i = Some s \<and> quit_error s = Some msg
               \<longrightarrow> Print (''Error closing driver: '' @ msg) \<in> set evs"
  proof (intro allI impI)
    fix i s msg
    assume a: "i < max_retries \<and> driver_at B i = Some s \<and> quit_error s = Some msg"
    then have "Print (''Error closing driver: '' @ msg) \<in> set (?f tev i)" by simp
    with a show "Print (''Error closing driver: '' @ msg) \<in> set evs"
      unfolding evs by (intro concat_map_member [of i]) simp_all
  qed
  from tev evs have t: "\<exists>tev.
               (\<forall>i < max_retries. \<exists>e'. try_body fuel B ?url i = Some (Inl e', tev i))
             \<and> evs = concat (map (?f tev) [0..<max_retries])"
    by blast
  from r l c1 c2 m t q p show ?thesis by blast
qed

theorem retry_exhaustion_witness:
  "scrape_openreview 1 browser_flaky ''ICLR'' 2024 ''Conference'' (Some ''oral'') 3 =
     Some (Inl (WebDriverException ''unreachable''),
           [Setup, Get ''https://openreview.net/group?id=ICLR.cc/2024/Conference#oral'', Sleep 5,
            Quit, Print ''Error closing driver: session gone'',
            Setup, Get ''https://openreview.net/group?id=ICLR.cc/2024/Conference#oral'', Sleep 5,
            Quit, Print ''Error closing driver: session gone'',
            Setup, Get ''https://openreview.net/group?id=ICLR.cc/2024/Conference#oral'',
            Quit, Print ''Error closing driver: session gone''])
   \<and> main 1 browser_flaky env_ok cfg0 w0 =
     Some (Inl (WebDriverException ''unreachable''),
           w0\<lparr>trace :=
             [Setup, Get ''https://openreview.net/group?id=ICLR.cc/2024/Conference#oral'', Sleep 5,
              Quit, Print ''Error closing driver: session gone'',
              Setup, Get ''https://openreview.net/group?id=ICLR.cc/2024/Conference#oral'', Sleep 5,
              Quit, Print ''Error closing driver: session gone'',
              Setup, Get ''https://openreview.net/group?id=ICLR.cc/2024/Conference#oral'',
              Quit, Print ''Error closing driver: session gone'']\<rparr>)"
proof -
  let ?X = "WebDriverException ''unreachable''"
  let ?u = "base_url ''ICLR'' 2024 ''Conference'' (Some ''oral'')"
  have 1: "0 < (3::nat)" by simp
  have 2: "\<forall>i < 3. \<exists>e evs. try_body 1 browser_flaky ?u i = Some (Inl e, evs)"
    by (simp add: flaky_try)
  have h: "3 = default_max_retries \<and> lower (platform cfg0) = ''openreview''
            \<and> ''ICLR'' = conference cfg0 \<and> 2024 = year cfg0 \<and> ''Conference'' = track cfg0
            \<and> Some ''oral'' = Some (submission_type cfg0)"
    by (simp add: default_max_retries_def lower_openreview cfg0_sel)
  from retry_exhaustion [OF 1 2, where cfg = cfg0 and E = env_ok and w = w0]
  obtain e evs evs' tev where
    r: "scrape_openreview 1 browser_flaky ''ICLR'' 2024 ''Conference'' (Some ''oral'') 3
          = Some (Inl e, evs)"
    and l: "try_body 1 browser_flaky ?u (3 - 1) = Some (Inl e, evs')"
    and m: "3 = default_max_retries \<and> lower (platform cfg0) = ''openreview''
            \<and> ''ICLR'' = conference cfg0 \<and> 2024 = year cfg0 \<and> ''Conference'' = track cfg0
            \<and> Some ''oral'' = Some (submission_type cfg0)
            \<longrightarrow> main 1 browser_flaky env_ok cfg0 w0 = Some (Inl e, w0\<lparr>trace := trace w0 @ evs\<rparr>)"
    and tv: "\<forall>i < 3. \<exists>e'. try_body 1 browser_flaky ?u i = Some (Inl e', tev i)"
    and evs: "evs = concat (map
                   (\<lambda>i. tev i
                        @ (if Suc i < 3 then [Sleep 5] else [])
                        @ (case driver_at browser_flaky i of
                             None \<Rightarrow> []
                           | Some s \<Rightarrow>
                               (case quit_error s of
                                  None \<Rightarrow> [Quit]
                                | Some msg \<Rightarrow> [Quit, Print (''Error closing driver: '' @ msg)])))
                   [0..<3])"
    by blast
  from l have e: "e = ?X" by (simp add: flaky_try)
  from tv have "\<forall>i < 3. tev i = [Setup, Get ?u]"
    by (auto simp add: flaky_try)
  then have t: "tev 0 = [Setup, Get ?u]" "tev 1 = [Setup, Get ?u]" "tev 2 = [Setup, Get ?u]"
    by simp_all
  from evs t have evs': "evs =
           [Setup, Get ?u, Sleep 5, Quit, Print ''Error closing driver: session gone'',
            Setup, Get ?u, Sleep 5, Quit, Print ''Error closing driver: session gone'',
            Setup, Get ?u, Quit, Print ''Error closing driver: session gone'']"
    by (simp add: upt_3 flaky_driver)
  from m h have mn: "main 1 browser_flaky env_ok cfg0 w0 = Some (Inl e, w0\<lparr>trace := trace w0 @ evs\<rparr>)"
    by (rule mp)
  from r mn e evs' show ?thesis by (simp add: url0 w0_def)
qed

text \<open>
  C6 (the scroll loop is bounded). For every script of heights, raising readings
  included, the loop scrolls at most 10 times. If the readings up to number \<open>k + 1\<close>
  succeed, differ from their predecessors up to number \<open>k\<close>, and reading \<open>k + 1\<close> equals
  reading \<open>k\<close>, with \<open>k < 10\<close>, the loop stops after \<open>k + 1\<close> scrolls. If every one of the
  first ten readings differs from its predecessor, the loop stops after 10 scrolls.
\<close>

theorem scroll_loop_bounded:
  "count_list (snd (scroll_loop hs h0 0)) Scroll \<le> 10
   \<and> (k < 10 \<and> g 0 = h0 \<and> (\<forall>j \<le> k. hs (Suc j) = Inr (g (Suc j)))
        \<and> (\<forall>j < k. g (Suc j) \<noteq> g j) \<and> g (Suc k) = g k
      \<longrightarrow> scroll_loop hs h0 0 = (Inr (), concat (replicate (Suc k) [Scroll, Sleep 3])))
   \<and> (g 0 = h0 \<and> (\<forall>j < 10. hs (Suc j) = Inr (g (Suc j)) \<and> g (Suc j) \<noteq> g j)
      \<longrightarrow> scroll_loop hs h0 0 = (Inr (), concat (replicate 10 [Scroll, Sleep 3])))"
proof (intro conjI impI)
  show "count_list (snd (scroll_loop hs h0 0)) Scroll \<le> 10"
    using scroll_count_le [of hs h0 0] by (simp add: max_scroll_attempts_def)
next
  assume a: "k < 10 \<and> g 0 = h0 \<and> (\<forall>j \<le> k. hs (Suc j) = Inr (g (Suc j)))
        \<and> (\<forall>j < k. g (Suc j) \<noteq> g j) \<and> g (Suc k) = g k"
  then have "scroll_loop hs (g 0) 0 = (Inr (), concat (replicate (Suc k - 0) [Scroll, Sleep 3]))"
    by (intro scroll_stop [where n = k]) (simp_all add: max_scroll_attempts_def)
  with a show "scroll_loop hs h0 0 = (Inr (), concat (replicate (Suc k) [Scroll, Sleep 3]))"
    by simp
next
  assume a: "g 0 = h0 \<and> (\<forall>j < 10. hs (Suc j) = Inr (g (Suc j)) \<and> g (Suc j) \<noteq> g j)"
  then have "scroll_loop hs (g 0) 0
      = (Inr (), concat (replicate (max_scroll_attempts - 0) [Scroll, Sleep 3]))"
    by (intro scroll_grow [where n = max_scroll_attempts]) (simp_all add: max_scroll_attempts_def)
  with a show "scroll_loop hs h0 0 = (Inr (), concat (replicate 10 [Scroll, Sleep 3]))"
    by (simp add: max_scroll_attempts_def)
qed

theorem scroll_loop_bounded_witness:
  "scroll_loop heights_settling 0 0 = (Inr (), concat (replicate 4 [Scroll, Sleep 3]))
   \<and> scroll_loop heights_growing 0 0 = (Inr (), concat (replicate 10 [Scroll, Sleep 3]))"
proof
  have "(3::nat) < 10 \<and> 100 * min 0 3 = (0::nat)
        \<and> (\<forall>j \<le> 3. heights_settling (Suc j) = Inr (100 * min (Suc j) 3))
        \<and> (\<forall>j < 3. 100 * min (Suc j) 3 \<noteq> (100 * min j 3 :: nat))
        \<and> 100 * min (Suc 3) 3 = (100 * min 3 3 :: nat)"
    by (simp add: heights_settling_def min_def)
  with scroll_loop_bounded [of heights_settling 0 3 "\<lambda>j. 100 * min j 3"]
  show "scroll_loop heights_settling 0 0 = (Inr (), concat (replicate 4 [Scroll, Sleep 3]))"
    by simp
next
  have "100 * 0 = (0::nat)
        \<and> (\<forall>j < 10. heights_growing (Suc j) = Inr (100 * Suc j) \<and> 100 * Suc j \<noteq> 100 * j)"
    by (simp add: heights_growing_def)
  with scroll_loop_bounded [of heights_growing 0 0 "\<lambda>j. 100 * j"]
  show "scroll_loop heights_growing 0 0 = (Inr (), concat (replicate 10 [Scroll, Sleep 3]))"
    by simp
qed

section \<open>The download contract\<close>

text \<open>
  C7. On status 200, and the path open for writing, \<open>download_pdf\<close> stores the body under
  \<open>os.path.join(output_dir, filename)\<close> and returns that path; on any other status it
  returns \<open>None\<close> and the files are unchanged. For a directory that is not empty and
  does not end in a slash and a file name that does not start with one, the joined path
  is the directory, a slash and the file name.
\<close>

theorem download_contract:
  "(http_get E url = Inr resp \<and> status_code resp = 200
      \<and> can_write E (path_join dir filename) \<longrightarrow>
      download_pdf E filename url dir fs =
        (Inr (Some (path_join dir filename)),
         fs(path_join dir filename \<mapsto> content resp)))
   \<and> (http_get E url = Inr resp \<and> status_code resp \<noteq> 200 \<longrightarrow>
        download_pdf E filename url dir fs = (Inr None, fs))
   \<and> (dir \<noteq> [] \<and> last dir \<noteq> CHR ''/'' \<and> \<not> startswith filename ''/'' \<longrightarrow>
        path_join dir filename = dir @ ''/'' @ filename)"
  by (simp add: download_pdf_def path_join_def Let_def)

theorem download_contract_witness:
  "download_pdf env_ok ''a.pdf'' ''http://x/a.pdf'' ''out'' Map.empty =
     (Inr (Some ''out/a.pdf''), [''out/a.pdf'' \<mapsto> ''%PDF''])
   \<and> download_pdf env_404 ''a.pdf'' ''http://x/a.pdf'' ''out'' Map.empty = (Inr None, Map.empty)"
proof
  have j: "path_join ''out'' ''a.pdf'' = ''out/a.pdf''"
    using download_contract [of env_ok "''http://x/a.pdf''" "\<lparr>status_code = 200, content = ''%PDF''\<rparr>" "''out''" "''a.pdf''" Map.empty]
    by (simp add: startswith_def)
  show "download_pdf env_ok ''a.pdf'' ''http://x/a.pdf'' ''out'' Map.empty =
     (Inr (Some ''out/a.pdf''), [''out/a.pdf'' \<mapsto> ''%PDF''])"
    using download_contract [of env_ok "''http://x/a.pdf''" "\<lparr>status_code = 200, content = ''%PDF''\<rparr>" "''out''" "''a.pdf''" Map.empty] j
    by (simp add: env_sel)
  show "download_pdf env_404 ''a.pdf'' ''http://x/a.pdf'' ''out'' Map.empty = (Inr None, Map.empty)"
    using download_contract [of env_404 "''http://x/a.pdf''" "\<lparr>status_code = 404, content = ''gone''\<rparr>" "''out''" "''a.pdf''" Map.empty]
    by (simp add: env_sel)
qed

section \<open>The identifier\<close>



end
